theory Spec2Isabelle
  imports Complex_Main
begin

section \<open>JavaScript numbers\<close>

text \<open>
  A Number is an IEEE 754 double: a finite value, an infinity or \<open>NaN\<close>. A finite value
  is a sign (\<open>True\<close> for minus), a mantissa and an exponent, and stands for
  \<open>mantissa * 2 ^ exponent\<close>; both zeros are there (\<open>Fin False 0 0\<close> and
  \<open>Fin True 0 0\<close>). So 2 is \<open>Fin False 2 0\<close>, and the double nearest to 0.1 is
  \<open>Fin False 3602879701896397 (- 55)\<close>.
\<close>

datatype jsnum = Fin bool nat int | Inf bool | NaN

fun js_neg :: "jsnum \<Rightarrow> jsnum" where
  "js_neg (Fin s m e) = Fin (\<not> s) m e"
| "js_neg (Inf s) = Inf (\<not> s)"
| "js_neg NaN = NaN"

text \<open>The number of binary digits of a mantissa.\<close>

fun bit_length :: "nat \<Rightarrow> nat" where
  "bit_length n = (if n = 0 then 0 else Suc (bit_length (n div 2)))"

declare bit_length.simps [simp del]

text \<open>
  Rounding the exact value \<open>M * 2 ^ E\<close> to a double, to nearest and ties to even. The
  unit in the last place is \<open>2 ^ u\<close>: 52 binary places below the leading digit, and not
  below \<open>2 ^ - 1074\<close>, the smallest subnormal. A value that is a multiple of the unit is
  exact. Otherwise the mantissa is cut at the unit and rounded up when the part cut off
  is more than half a unit, or is half a unit and the cut mantissa is odd.
\<close>

definition round_mantissa :: "nat \<Rightarrow> int \<Rightarrow> nat \<times> int" where
  "round_mantissa M E =
     (let e = int (bit_length M) - 1 + E;
          u = max (e - 52) (- 1074)
      in if u \<le> E then (M, E)
         else (let k = nat (u - E); q = M div 2 ^ k; r = M mod 2 ^ k; h = 2 ^ (k - 1)
               in (if h < r \<or> (r = h \<and> odd q) then q + 1 else q, u)))"

text \<open>A rounded value of \<open>2 ^ 1024\<close> or more is an infinity, and a zero keeps the sign.\<close>

definition pack :: "bool \<Rightarrow> nat \<times> int \<Rightarrow> jsnum" where
  "pack s p =
     (case p of (R, U) \<Rightarrow>
        if R = 0 then Fin s 0 0
        else if 1024 < int (bit_length R) + U then Inf s
        else Fin s R U)"

definition round_double :: "bool \<Rightarrow> nat \<Rightarrow> int \<Rightarrow> jsnum" where
  "round_double s M E = pack s (round_mantissa M E)"

text \<open>The product of two Numbers.\<close>

fun js_times :: "jsnum \<Rightarrow> jsnum \<Rightarrow> jsnum" where
  "js_times (Fin s1 m1 e1) (Fin s2 m2 e2) = round_double (s1 \<noteq> s2) (m1 * m2) (e1 + e2)"
| "js_times (Fin s1 m1 e1) (Inf s2) = (if m1 = 0 then NaN else Inf (s1 \<noteq> s2))"
| "js_times (Inf s1) (Fin s2 m2 e2) = (if m2 = 0 then NaN else Inf (s1 \<noteq> s2))"
| "js_times (Inf s1) (Inf s2) = Inf (s1 \<noteq> s2)"
| "js_times NaN b = NaN"
| "js_times a NaN = NaN"

text \<open>The exact value of a finite Number, and the comparison \<open><\<close> of Numbers: false
  when an operand is \<open>NaN\<close>, and the two zeros are equal.\<close>

definition fin_value :: "bool \<Rightarrow> nat \<Rightarrow> int \<Rightarrow> rat" where
  "fin_value s m e =
     (if s then - 1 else 1) * of_nat m * (if 0 \<le> e then 2 ^ nat e else 1 / 2 ^ nat (- e))"

fun js_less :: "jsnum \<Rightarrow> jsnum \<Rightarrow> bool" where
  "js_less (Fin s1 m1 e1) (Fin s2 m2 e2) = (fin_value s1 m1 e1 < fin_value s2 m2 e2)"
| "js_less (Fin s1 m1 e1) (Inf s2) = (\<not> s2)"
| "js_less (Inf s1) (Fin s2 m2 e2) = s1"
| "js_less (Inf s1) (Inf s2) = (s1 \<and> \<not> s2)"
| "js_less NaN b = False"
| "js_less a NaN = False"

fun is_zero :: "jsnum \<Rightarrow> bool" where
  "is_zero (Fin s m e) = (m = 0)"
| "is_zero (Inf s) = False"
| "is_zero NaN = False"

definition is_positive :: "jsnum \<Rightarrow> bool" where
  "is_positive a = js_less (Fin False 0 0) a"

definition is_negative :: "jsnum \<Rightarrow> bool" where
  "is_negative a = js_less a (Fin False 0 0)"

section \<open>Values and the object store\<close>

datatype error = MountElementError | WebGLUnsupported | PanelError | TypeError

text \<open>A numeric value is a Number or a BigInt.\<close>

datatype numeric = Number jsnum | BigInt int

text \<open>
  Plain objects (an options mapping, a colour such as \<open>{ r: 1, g: 1, b: 1 }\<close>) live in
  a store and are held by reference: an address is an index into the store, and
  allocation appends. A field holds a Number, a boolean, \<open>null\<close>, \<open>undefined\<close>, a
  Symbol, a BigInt, a reference to a plain object, or any other value (a string, an
  array, a date, an object with a \<open>valueOf\<close> of its own or with no prototype), which is
  known by what its conversion to a numeric value gives: 5 for the array \<open>[5]\<close>, \<open>NaN\<close>
  for the string \<open>"a"\<close>, a \<open>TypeError\<close> for \<open>Object.create(null)\<close>. A plain object is
  the list of its own enumerable properties in enumeration order, which is what
  \<open>for ... in\<close> goes through.
\<close>

type_synonym addr = nat

datatype val =
  VNum jsnum
| VBool bool
| VNull
| VUndef
| VSymbol
| VBigInt int
| VObj addr
| VOther "error + numeric"

type_synonym obj = "(string \<times> val) list"

text \<open>The conversion that unary minus and \<open>*\<close> apply to an operand. A Symbol cannot be
  converted; a plain object converts to \<open>NaN\<close>.\<close>

fun ToNumeric :: "val \<Rightarrow> error + numeric" where
  "ToNumeric (VNum n) = Inr (Number n)"
| "ToNumeric (VBool b) = Inr (Number (if b then Fin False 1 0 else Fin False 0 0))"
| "ToNumeric VNull = Inr (Number (Fin False 0 0))"
| "ToNumeric VUndef = Inr (Number NaN)"
| "ToNumeric VSymbol = Inl TypeError"
| "ToNumeric (VBigInt i) = Inr (BigInt i)"
| "ToNumeric (VObj a) = Inr (Number NaN)"
| "ToNumeric (VOther r) = r"

text \<open>Unary minus on a numeric value, and \<open>x * m\<close> for a Number \<open>m\<close>: a BigInt and a
  Number cannot be mixed.\<close>

fun negate :: "numeric \<Rightarrow> numeric" where
  "negate (Number a) = Number (js_neg a)"
| "negate (BigInt i) = BigInt (- i)"

fun times_number :: "numeric \<Rightarrow> jsnum \<Rightarrow> error + jsnum" where
  "times_number (Number a) m = Inr (js_times a m)"
| "times_number (BigInt i) m = Inl TypeError"

definition keys :: "obj \<Rightarrow> string list" where
  "keys ob = map fst ob"

text \<open>Reading \<open>ob[k]\<close>: a missing property reads as \<open>undefined\<close>.\<close>

definition get :: "obj \<Rightarrow> string \<Rightarrow> val" where
  "get ob k = (case map_of ob k of None \<Rightarrow> VUndef | Some v \<Rightarrow> v)"

text \<open>The assignment \<open>ob[k] = v\<close>: an existing property keeps its place, a new one is
  added last.\<close>

fun assign :: "string \<Rightarrow> val \<Rightarrow> obj \<Rightarrow> obj" where
  "assign k v [] = [(k, v)]"
| "assign k v ((k', v') # ob) = (if k' = k then (k, v) # ob else (k', v') # assign k v ob)"

section \<open>The debug panel\<close>

text \<open>
  \<open>Debug.gui\<close> is one panel shared by every binder. The panel library (dat.gui) is
  not part of the sources: the model records the calls the binder makes on it, as the
  folders of the panel and the controls requested in each. A colour control is
  requested by \<open>addColor(object, property)\<close>, a control with a range by
  \<open>add(object, property, min, max)\<close>.
\<close>

datatype control = ColorControl addr string | RangeControl addr string jsnum jsnum

record folder =
  folder_name :: string
  folder_controls :: "control list"

record world =
  heap :: "obj list"
  gui :: "folder list"

text \<open>
  Whether the library accepts a call or throws is its own business, so it is a
  parameter: a \<open>panel\<close> says, for the present panel and store, whether a request goes
  through. An accepted request is recorded; a refused one raises and changes nothing.
\<close>

datatype request =
  ReqFolder string
| ReqColor nat addr string
| ReqRange nat addr string jsnum jsnum

type_synonym panel = "folder list \<Rightarrow> obj list \<Rightarrow> request \<Rightarrow> bool"

definition accept_all :: panel where
  "accept_all g h r = True"

text \<open>A panel that refuses a folder whose name is already in use and accepts
  everything else. This is the rule of dat.gui's \<open>addFolder\<close>, which is documented to
  throw an \<open>Error\<close> if the GUI already has a folder by the specified name.\<close>

definition unique_folder_names :: panel where
  "unique_folder_names g h r =
     (case r of ReqFolder n \<Rightarrow> n \<notin> set (map folder_name g) | _ \<Rightarrow> True)"

definition addFolder :: "panel \<Rightarrow> string \<Rightarrow> world \<Rightarrow> (error + nat) \<times> world" where
  "addFolder P n w =
     (if P (gui w) (heap w) (ReqFolder n)
      then (Inr (length (gui w)),
            w\<lparr>gui := gui w @ [\<lparr>folder_name = n, folder_controls = []\<rparr>]\<rparr>)
      else (Inl PanelError, w))"

definition register :: "nat \<Rightarrow> control \<Rightarrow> world \<Rightarrow> world" where
  "register f c w =
     w\<lparr>gui := (gui w)[f := (gui w ! f)\<lparr>folder_controls := folder_controls (gui w ! f) @ [c]\<rparr>]\<rparr>"

definition addColor :: "panel \<Rightarrow> nat \<Rightarrow> addr \<Rightarrow> string \<Rightarrow> world \<Rightarrow> (error + unit) \<times> world" where
  "addColor P f ob k w =
     (if P (gui w) (heap w) (ReqColor f ob k)
      then (Inr (), register f (ColorControl ob k) w)
      else (Inl PanelError, w))"

definition folder_add ::
  "panel \<Rightarrow> nat \<Rightarrow> addr \<Rightarrow> string \<Rightarrow> jsnum \<Rightarrow> jsnum \<Rightarrow> world \<Rightarrow> (error + unit) \<times> world" where
  "folder_add P f ob k lo hi w =
     (if P (gui w) (heap w) (ReqRange f ob k lo hi)
      then (Inr (), register f (RangeControl ob k lo hi) w)
      else (Inl PanelError, w))"

text \<open>lodash's \<open>clone\<close> of a plain object: a new object with the same own properties,
  holding the same values (a nested object is shared, not copied).\<close>

definition clone :: "addr \<Rightarrow> world \<Rightarrow> addr \<times> world" where
  "clone a w = (length (heap w), w\<lparr>heap := heap w @ [heap w ! a]\<rparr>)"

text \<open>The assignment \<open>a[k] = v\<close> on the object at address \<open>a\<close>.\<close>

definition set_field :: "addr \<Rightarrow> string \<Rightarrow> val \<Rightarrow> world \<Rightarrow> world" where
  "set_field a k v w = w\<lparr>heap := (heap w)[a := assign k v (heap w ! a)]\<rparr>"

section \<open>The binder: class Debug\<close>

record debug =
  multiple :: jsnum

text \<open>\<open>constructor(multiple = 3)\<close>: the default applies when the argument is left out.\<close>

definition Debug_constructor :: "jsnum option \<Rightarrow> debug" where
  "Debug_constructor arg =
     \<lparr>multiple = (case arg of None \<Rightarrow> Fin False 3 0 | Some m \<Rightarrow> m)\<rparr>"

text \<open>The two bounds that \<open>add\<close> computes for a field of value \<open>v\<close>:
  \<open>-options[key] * this.multiple\<close> and \<open>options[key] * this.multiple\<close>.\<close>

definition lower_bound :: "debug \<Rightarrow> val \<Rightarrow> error + jsnum" where
  "lower_bound d v =
     (case ToNumeric v of Inl e \<Rightarrow> Inl e | Inr x \<Rightarrow> times_number (negate x) (multiple d))"

definition upper_bound :: "debug \<Rightarrow> val \<Rightarrow> error + jsnum" where
  "upper_bound d v =
     (case ToNumeric v of Inl e \<Rightarrow> Inl e | Inr x \<Rightarrow> times_number x (multiple d))"

text \<open>The body of the \<open>for (const key in options)\<close> loop of \<open>add\<close>, over the keys that
  remain; \<open>ob\<close> is the clone and \<open>f\<close> the folder. The arguments of \<open>folder.add\<close> are
  computed before the call, the minimum first. An expression or a call that throws ends
  the loop.\<close>

fun add_fields ::
  "panel \<Rightarrow> debug \<Rightarrow> nat \<Rightarrow> addr \<Rightarrow> string list \<Rightarrow> world \<Rightarrow> (error + unit) \<times> world" where
  "add_fields P d f ob [] w = (Inr (), w)"
| "add_fields P d f ob (key # ks) w =
     (case (if key = ''color''
            then addColor P f ob key w
            else (case lower_bound d (get (heap w ! ob) key) of
                    Inl e \<Rightarrow> (Inl e, w)
                  | Inr lo \<Rightarrow>
                      (case upper_bound d (get (heap w ! ob) key) of
                         Inl e \<Rightarrow> (Inl e, w)
                       | Inr hi \<Rightarrow> folder_add P f ob key lo hi w))) of
        (Inl e, w') \<Rightarrow> (Inl e, w')
      | (Inr u, w') \<Rightarrow> add_fields P d f ob ks w')"

text \<open>\<open>add(name, options)\<close>, with \<open>options\<close> a reference to an options mapping.\<close>

definition Debug_add ::
  "panel \<Rightarrow> debug \<Rightarrow> string \<Rightarrow> addr \<Rightarrow> world \<Rightarrow> (error + addr) \<times> world" where
  "Debug_add P d name options w =
     (case clone options w of (ob, w1) \<Rightarrow>
        (case addFolder P name w1 of
           (Inl e, w2) \<Rightarrow> (Inl e, w2)
         | (Inr f, w2) \<Rightarrow>
             (case add_fields P d f ob (keys (heap w2 ! ob)) w2 of
                (Inl e, w3) \<Rightarrow> (Inl e, w3)
              | (Inr u, w3) \<Rightarrow> (Inr ob, w3))))"

text \<open>The control that \<open>add\<close> requests for the property \<open>k\<close> of the clone \<open>ob\<close> whose
  content is \<open>props\<close>, when both bounds can be computed.\<close>

definition control_for :: "debug \<Rightarrow> addr \<Rightarrow> obj \<Rightarrow> string \<Rightarrow> control" where
  "control_for d ob props k =
     (if k = ''color'' then ColorControl ob k
      else RangeControl ob k (projr (lower_bound d (get props k)))
                             (projr (upper_bound d (get props k))))"

section \<open>Vocabulary of the properties\<close>

text \<open>A control has been given its bounds in reversed order when its minimum lies above
  its maximum.\<close>

fun reversed :: "control \<Rightarrow> bool" where
  "reversed (RangeControl ob k lo hi) = js_less hi lo"
| "reversed (ColorControl ob k) = False"


fun control_key :: "control \<Rightarrow> string" where
  "control_key (ColorControl ob k) = k"
| "control_key (RangeControl ob k lo hi) = k"

fun control_object :: "control \<Rightarrow> addr" where
  "control_object (ColorControl ob k) = ob"
| "control_object (RangeControl ob k lo hi) = ob"

text \<open>An edit in the panel: the control sets the property it is bound to, on the object
  it is bound to (dat.gui's \<open>setValue\<close>).\<close>

definition panel_edit :: "control \<Rightarrow> val \<Rightarrow> world \<Rightarrow> world" where
  "panel_edit x v w = set_field (control_object x) (control_key x) v w"

text \<open>A value that converts to a Number, and a mapping whose fields all do, the field
  \<open>color\<close> apart.\<close>

definition coerces :: "val \<Rightarrow> bool" where
  "coerces v = (case ToNumeric v of Inr (Number x) \<Rightarrow> True | _ \<Rightarrow> False)"

definition numeric_fields :: "obj \<Rightarrow> bool" where
  "numeric_fields ob = (\<forall>k \<in> set (keys ob). k \<noteq> ''color'' \<longrightarrow> coerces (get ob k))"

text \<open>The call of the end-to-end example:
  \<open>add("Light", { intensity: 2, color: { r: 1, g: 1, b: 1 } })\<close>. The colour object is
  at address 0 and the options mapping at address 1.\<close>

definition light_world :: world where
  "light_world =
     \<lparr>heap = [[(''r'', VNum (Fin False 1 0)), (''g'', VNum (Fin False 1 0)),
               (''b'', VNum (Fin False 1 0))],
              [(''intensity'', VNum (Fin False 2 0)), (''color'', VObj 0)]],
      gui = []\<rparr>"

section \<open>The composer: class Lego\<close>

text \<open>
  A DOM node is what \<open>toString()\<close> answers for it and its children. \<open>WEBGL\<close>
  (\<open>../utils/WebGl.js\<close>) is not among the sources: the answer of
  \<open>isWebGLAvailable()\<close> and the element that \<open>getWebGLErrorMessage()\<close> builds are
  parameters.
\<close>

datatype node = Node (to_string: string) (child_nodes: "node list")

record webgl =
  isWebGLAvailable :: bool
  getWebGLErrorMessage :: node

text \<open>\<open>appendChild\<close> changes the element it is called on, so the element is returned
  with the answer.\<close>

definition compatibilityCheck :: "webgl \<Rightarrow> node \<Rightarrow> bool \<times> node" where
  "compatibilityCheck W e =
     (if isWebGLAvailable W then (True, e)
      else (False, Node (to_string e) (child_nodes e @ [getWebGLErrorMessage W])))"

text \<open>
  The scene, camera, light, renderer and control factories are modules of their own
  that build objects of the rendering engine; they are not among the sources. What
  they return is kept as the call that was made, with the arguments the constructor
  passes.
\<close>

type_synonym cfg = "obj option"

datatype three =
  SceneOf cfg
| CameraOf cfg node
| AmbientOf cfg
| DirectionalOf cfg
| RendererOf node
| ControlOf three node

record LegoOptions =
  opt_el :: "node option"
  opt_camera :: cfg
  opt_scene :: cfg
  opt_ambient :: cfg
  opt_directional :: cfg

record lego =
  el :: node
  scene :: three
  camera :: three
  renderer :: three
  control :: three
  ambientLight :: three
  directionalLight :: three
  ground :: "three option"
  debugList :: "nat list"

text \<open>
  The constructor. The two \<open>throw\<close> statements are the two errors (the messages are
  "pass in the document node to mount on" and "this browser does not support webgl").
  An error comes with the state the mount element is left in.
\<close>

definition Lego_constructor :: "webgl \<Rightarrow> LegoOptions \<Rightarrow> (error \<times> node option) + lego" where
  "Lego_constructor W opts =
     (case opt_el opts of
        None \<Rightarrow> Inl (MountElementError, None)
      | Some e \<Rightarrow>
          if to_string e \<noteq> ''[object HTMLDivElement]'' then Inl (MountElementError, Some e)
          else (case compatibilityCheck W e of
                  (False, e') \<Rightarrow> Inl (WebGLUnsupported, Some e')
                | (True, e') \<Rightarrow>
                    Inr \<lparr>el = e',
                         scene = SceneOf (opt_scene opts),
                         camera = CameraOf (opt_camera opts) e',
                         renderer = RendererOf e',
                         control = ControlOf (CameraOf (opt_camera opts) e') e',
                         ambientLight = AmbientOf (opt_ambient opts),
                         directionalLight = DirectionalOf (opt_directional opts),
                         ground = None,
                         debugList = []\<rparr>))"

text \<open>One run of \<open>animate\<close>, as the calls it makes in the order it makes them. A debug
  callback is an opaque function, known by a number and taken to return; the callback
  handed to \<open>requestAnimationFrame\<close> is \<open>this.animate\<close>.\<close>

datatype callback = Lego_animate

datatype event =
  DebugCallback nat
| ControlUpdate three
| Render three three three
| RequestAnimationFrame callback

definition animate :: "lego \<Rightarrow> event list" where
  "animate L =
     map DebugCallback (debugList L) @
     [ControlUpdate (control L), Render (renderer L) (scene L) (camera L),
      RequestAnimationFrame Lego_animate]"

fun is_render :: "event \<Rightarrow> bool" where
  "is_render (Render r s c) = True"
| "is_render _ = False"

section \<open>Arithmetic of doubles\<close>

text \<open>
  Products, computed: \<open>0.1 * 3\<close> is 0.30000000000000004, that is
  \<open>1351079888211149 / 2 ^ 52\<close>; \<open>2 * 3\<close> is 6; \<open>1e-200 * 1e-200\<close> is 0;
  \<open>1e308 * 3\<close> is \<open>Infinity\<close>. A tie goes to the even mantissa:
  \<open>3 * 3002399751580331\<close>, exactly \<open>2 ^ 53 + 1\<close>, is \<open>2 ^ 53\<close>, and
  \<open>3 * 3002399751580333\<close>, exactly 9007199254740999, is 9007199254741000. Half the
  smallest subnormal is 0, and one and a half times it is twice it.
\<close>

lemma tenth_times_three:
  "js_times (Fin False 3602879701896397 (- 55)) (Fin False 3 0) = Fin False 5404319552844596 (- 54)"
  by (simp add: round_double_def round_mantissa_def pack_def bit_length.simps Let_def)

lemma tenth_value: "fin_value False 5404319552844596 (- 54) = 1351079888211149 / 4503599627370496"
  by (simp add: fin_value_def)

lemma two_times_three:
  "js_times (Fin False 2 0) (Fin False 3 0) = Fin False 6 0"
  by (simp add: round_double_def round_mantissa_def pack_def bit_length.simps Let_def)

lemma underflow:
  "js_times (Fin False 1723641332219371 (- 715)) (Fin False 1723641332219371 (- 715)) = Fin False 0 0"
  by (simp add: round_double_def round_mantissa_def pack_def bit_length.simps Let_def)

lemma overflow:
  "js_times (Fin False 156575653125701 976) (Fin False 3 0) = Inf False"
  by (simp add: round_double_def round_mantissa_def pack_def bit_length.simps Let_def)

lemma tie_to_even:
  "js_times (Fin False 3 0) (Fin False 3002399751580331 0) = Fin False 4503599627370496 1"
  "js_times (Fin False 3 0) (Fin False 3002399751580333 0) = Fin False 4503599627370500 1"
  by (simp_all add: round_double_def round_mantissa_def pack_def bit_length.simps Let_def)

lemma smallest_subnormal:
  "js_times (Fin False 1 (- 1074)) (Fin False 1 (- 1)) = Fin False 0 0"
  "js_times (Fin True 1 (- 1074)) (Fin False 3 (- 1)) = Fin True 2 (- 1074)"
  by (simp_all add: round_double_def round_mantissa_def pack_def bit_length.simps Let_def)

text \<open>Negation commutes with the product, and the product of two positive Numbers is
  positive unless it is a zero.\<close>

lemma round_double_neg: "round_double (\<not> s) M E = js_neg (round_double s M E)"
  by (cases "round_mantissa M E") (simp add: round_double_def pack_def)

lemma js_times_neg: "js_times (js_neg a) b = js_neg (js_times a b)"
proof (cases a)
  case (Fin s m e)
  then show ?thesis
  proof (cases b)
    case (Fin s2 m2 e2)
    with \<open>a = Fin s m e\<close> show ?thesis
      using round_double_neg [of True "m * m2" "e + e2"] round_double_neg [of False "m * m2" "e + e2"]
      by (cases s; cases s2; simp)
  qed auto
next
  case (Inf s)
  then show ?thesis by (cases b) auto
next
  case NaN
  then show ?thesis by simp
qed

lemma js_neg_neg: "js_neg (js_neg a) = a"
  by (cases a) simp_all

lemma is_zero_neg: "is_zero (js_neg a) = is_zero a"
  by (cases a) simp_all

lemma fin_value_pos: "0 < fin_value s m e \<longleftrightarrow> \<not> s \<and> 0 < m"
proof -
  have p: "(0::rat) < (if 0 \<le> e then 2 ^ nat e else 1 / 2 ^ nat (- e))" by simp
  show ?thesis
  proof (cases s)
    case True
    have "fin_value True m e \<le> 0"
      unfolding fin_value_def using p
      by (simp add: mult_nonneg_nonneg)
    with True show ?thesis by simp
  next
    case False
    then show ?thesis unfolding fin_value_def using p
      by (simp add: zero_less_mult_iff)
  qed
qed

lemma fin_value_zero: "fin_value False 0 0 = 0"
  by (simp add: fin_value_def)

lemma fin_value_neg: "fin_value (\<not> s) m e = - fin_value s m e"
  by (simp add: fin_value_def)

lemma is_positive_Fin: "is_positive (Fin s m e) \<longleftrightarrow> \<not> s \<and> 0 < m"
  by (simp add: is_positive_def fin_value_zero fin_value_pos)

lemma is_positive_cases:
  "is_positive a \<longleftrightarrow> (\<exists>m e. a = Fin False m e \<and> 0 < m) \<or> a = Inf False"
  by (cases a) (auto simp: is_positive_Fin, simp_all add: is_positive_def)

lemma is_negative_neg: "is_negative a \<Longrightarrow> is_positive (js_neg a)"
proof (cases a)
  case (Fin s m e)
  assume "is_negative a"
  with Fin have "fin_value s m e < 0" by (simp add: is_negative_def fin_value_zero)
  then have "0 < fin_value (\<not> s) m e" by (simp add: fin_value_neg)
  with Fin show ?thesis by (simp add: is_positive_def fin_value_zero)
qed (simp_all add: is_negative_def is_positive_def)

lemma round_double_sign:
  "round_double s M E = Fin s 0 0 \<or> round_double s M E = Inf s
     \<or> (\<exists>R U. round_double s M E = Fin s R U \<and> 0 < R)"
  by (cases "round_mantissa M E") (auto simp: round_double_def pack_def)

lemma js_times_positive:
  assumes "is_positive a" and "is_positive b" and "\<not> is_zero (js_times a b)"
  shows "is_positive (js_times a b)"
proof -
  from assms(1) consider m e where "a = Fin False m e" "0 < m" | "a = Inf False"
    using is_positive_cases by blast
  then show ?thesis
  proof cases
    case 1
    from assms(2) consider m2 e2 where "b = Fin False m2 e2" "0 < m2" | "b = Inf False"
      using is_positive_cases by blast
    then show ?thesis
    proof cases
      case 1
      with \<open>a = Fin False m e\<close> have t: "js_times a b = round_double False (m * m2) (e + e2)"
        by simp
      from round_double_sign [of False "m * m2" "e + e2"] assms(3) show ?thesis
        unfolding t by (auto simp: is_positive_Fin, simp add: is_positive_def)
    next
      case 2
      with 1 show ?thesis by (simp add: is_positive_def)
    qed
  next
    case 2
    from assms(2) consider m2 e2 where "b = Fin False m2 e2" "0 < m2" | "b = Inf False"
      using is_positive_cases by blast
    then show ?thesis using 2 by cases (simp_all add: is_positive_def)
  qed
qed

lemma less_neg_positive: "is_positive p \<Longrightarrow> js_less (js_neg p) p"
proof (cases p)
  case (Fin s m e)
  assume "is_positive p"
  with Fin have "0 < fin_value s m e" by (simp add: is_positive_def fin_value_zero)
  then have "fin_value (\<not> s) m e < fin_value s m e" by (simp add: fin_value_neg)
  with Fin show ?thesis by simp
qed (simp_all add: is_positive_def)

section \<open>The two bounds\<close>

lemma bounds_of_number:
  "upper_bound d (VNum v) = Inr (js_times v (multiple d))"
  "lower_bound d (VNum v) = Inr (js_times (js_neg v) (multiple d))"
  by (simp_all add: upper_bound_def lower_bound_def)

text \<open>The minimum is the negated maximum, and the two expressions throw together.\<close>

lemma lower_of_upper:
  "upper_bound d v = Inr hi \<Longrightarrow> lower_bound d v = Inr (js_neg hi)"
proof -
  assume u: "upper_bound d v = Inr hi"
  show ?thesis
  proof (cases "ToNumeric v")
    case (Inl e)
    with u show ?thesis by (simp add: upper_bound_def)
  next
    case (Inr x)
    with u show ?thesis
      by (cases x) (auto simp: upper_bound_def lower_bound_def js_times_neg)
  qed
qed

lemma lower_Inl_iff: "lower_bound d v = Inl e \<longleftrightarrow> upper_bound d v = Inl e"
proof (cases "ToNumeric v")
  case (Inl e')
  then show ?thesis by (simp add: upper_bound_def lower_bound_def)
next
  case (Inr x)
  then show ?thesis by (cases x) (simp_all add: upper_bound_def lower_bound_def)
qed

lemma coerces_iff: "coerces v \<longleftrightarrow> (\<exists>hi. upper_bound d v = Inr hi)"
proof (cases "ToNumeric v")
  case (Inl e)
  then show ?thesis by (simp add: coerces_def upper_bound_def)
next
  case (Inr x)
  then show ?thesis by (cases x) (simp_all add: coerces_def upper_bound_def)
qed

section \<open>What a call of add does\<close>

lemma register_simps:
  "heap (register f c w) = heap w"
  "length (gui (register f c w)) = length (gui w)"
  by (simp_all add: register_def)

text \<open>One step of the loop on a key that is not \<open>color\<close>, when it goes through.\<close>

lemma range_step:
  assumes "key \<noteq> ''color''"
    and "add_fields P d f ob (key # ks) w = (Inr u, w')"
  obtains lo hi where "lower_bound d (get (heap w ! ob) key) = Inr lo"
    and "upper_bound d (get (heap w ! ob) key) = Inr hi"
    and "add_fields P d f ob ks (register f (RangeControl ob key lo hi) w) = (Inr u, w')"
proof (cases "lower_bound d (get (heap w ! ob) key)")
  case (Inl e)
  with assms show ?thesis by simp
next
  case lo: (Inr lo)
  show ?thesis
  proof (cases "upper_bound d (get (heap w ! ob) key)")
    case (Inl e)
    with assms lo show ?thesis by simp
  next
    case hi: (Inr hi)
    show ?thesis
    proof (cases "P (gui w) (heap w) (ReqRange f ob key lo hi)")
      case True
      with assms lo hi have
        "add_fields P d f ob ks (register f (RangeControl ob key lo hi) w) = (Inr u, w')"
        by (simp add: folder_add_def)
      with lo hi that show ?thesis by blast
    next
      case False
      with assms lo hi show ?thesis by (simp add: folder_add_def)
    qed
  qed
qed

text \<open>A loop that ends normally has left the store alone, has computed the bounds of
  every field, and has appended to the folder one control for each key, in order.\<close>

lemma add_fields_Inr:
  "add_fields P d f ob ks w = (Inr u, w') \<Longrightarrow> f < length (gui w) \<Longrightarrow>
     heap w' = heap w \<and>
     gui w' = (gui w)[f := (gui w ! f)\<lparr>folder_controls :=
                 folder_controls (gui w ! f) @ map (control_for d ob (heap w ! ob)) ks\<rparr>] \<and>
     (\<forall>k \<in> set ks. k \<noteq> ''color'' \<longrightarrow> (\<exists>hi. upper_bound d (get (heap w ! ob) k) = Inr hi))"
proof (induction ks arbitrary: w)
  case Nil
  then show ?case by simp
next
  case (Cons key ks)
  show ?case
  proof (cases "key = ''color''")
    case True
    with Cons.prems(1) have acc: "P (gui w) (heap w) (ReqColor f ob key)"
      by (auto simp: addColor_def split: if_splits)
    let ?w1 = "register f (ColorControl ob key) w"
    from Cons.prems(1) True acc have rest: "add_fields P d f ob ks ?w1 = (Inr u, w')"
      by (simp add: addColor_def)
    have "f < length (gui ?w1)" using Cons.prems(2) by (simp add: register_simps)
    from Cons.IH [OF rest this] Cons.prems(2) True show ?thesis
      by (simp add: register_def control_for_def)
  next
    case False
    from range_step [OF False Cons.prems(1)] obtain lo hi
      where lo: "lower_bound d (get (heap w ! ob) key) = Inr lo"
        and hi: "upper_bound d (get (heap w ! ob) key) = Inr hi"
        and rest: "add_fields P d f ob ks (register f (RangeControl ob key lo hi) w) = (Inr u, w')"
      by blast
    let ?w1 = "register f (RangeControl ob key lo hi) w"
    have "f < length (gui ?w1)" using Cons.prems(2) by (simp add: register_simps)
    from Cons.IH [OF rest this] Cons.prems(2) False lo hi show ?thesis
      by (simp add: register_def control_for_def)
  qed
qed


text \<open>Whatever the outcome, the loop leaves the store and the other folders alone, and
  every control it adds to its folder is bound to the clone.\<close>

lemma add_fields_any:
  "f < length (gui w) \<Longrightarrow>
     heap (snd (add_fields P d f ob ks w)) = heap w \<and>
     length (gui (snd (add_fields P d f ob ks w))) = length (gui w) \<and>
     (\<forall>i < length (gui w). i \<noteq> f \<longrightarrow> gui (snd (add_fields P d f ob ks w)) ! i = gui w ! i) \<and>
     (\<forall>x \<in> set (folder_controls (gui (snd (add_fields P d f ob ks w)) ! f)).
        x \<in> set (folder_controls (gui w ! f)) \<or> control_object x = ob)"
proof (induction ks arbitrary: w)
  case Nil
  then show ?case by simp
next
  case (Cons key ks)
  have step: ?case if r: "add_fields P d f ob (key # ks) w = add_fields P d f ob ks (register f c w)"
    and c: "control_object c = ob" for c
  proof -
    let ?w1 = "register f c w"
    have f1: "f < length (gui ?w1)" using Cons.prems by (simp add: register_simps)
    have g1: "\<forall>i < length (gui w). i \<noteq> f \<longrightarrow> gui ?w1 ! i = gui w ! i"
      by (simp add: register_def)
    have c1: "folder_controls (gui ?w1 ! f) = folder_controls (gui w ! f) @ [c]"
      using Cons.prems by (simp add: register_def)
    from Cons.IH [OF f1] c g1 c1 show ?thesis
      unfolding r by (auto simp: register_simps)
  qed
  have stop: ?case if "add_fields P d f ob (key # ks) w = (Inl e, w)" for e
    using that by simp
  show ?case
  proof (cases "key = ''color''")
    case True
    show ?thesis
    proof (cases "P (gui w) (heap w) (ReqColor f ob key)")
      case acc: True
      with True have "add_fields P d f ob (key # ks) w =
          add_fields P d f ob ks (register f (ColorControl ob key) w)"
        by (simp add: addColor_def)
      then show ?thesis by (rule step) simp
    next
      case False
      with True have "add_fields P d f ob (key # ks) w = (Inl PanelError, w)"
        by (simp add: addColor_def)
      then show ?thesis by (rule stop)
    qed
  next
    case False
    show ?thesis
    proof (cases "upper_bound d (get (heap w ! ob) key)")
      case (Inl e')
      then have "lower_bound d (get (heap w ! ob) key) = Inl e'"
        by (simp add: lower_Inl_iff)
      with False have "add_fields P d f ob (key # ks) w = (Inl e', w)" by simp
      then show ?thesis by (rule stop)
    next
      case (Inr hi)
      then have lo: "lower_bound d (get (heap w ! ob) key) = Inr (js_neg hi)"
        by (rule lower_of_upper)
      show ?thesis
      proof (cases "P (gui w) (heap w) (ReqRange f ob key (js_neg hi) hi)")
        case acc: True
        with False Inr lo have "add_fields P d f ob (key # ks) w =
            add_fields P d f ob ks (register f (RangeControl ob key (js_neg hi) hi) w)"
          by (simp add: folder_add_def)
        then show ?thesis by (rule step) simp
      next
        case no: False
        with False Inr lo have "add_fields P d f ob (key # ks) w = (Inl PanelError, w)"
          by (simp add: folder_add_def)
        then show ?thesis by (rule stop)
      qed
    qed
  qed
qed

text \<open>On a panel that accepts every call, the loop ends normally when the bounds of
  every field can be computed.\<close>

lemma add_fields_accept_all:
  "(\<forall>k \<in> set ks. k \<noteq> ''color'' \<longrightarrow> coerces (get (heap w ! ob) k)) \<Longrightarrow>
     \<exists>w'. add_fields accept_all d f ob ks w = (Inr (), w')"
proof (induction ks arbitrary: w)
  case Nil
  then show ?case by simp
next
  case (Cons key ks)
  show ?case
  proof (cases "key = ''color''")
    case True
    let ?w1 = "register f (ColorControl ob key) w"
    have "\<forall>k \<in> set ks. k \<noteq> ''color'' \<longrightarrow> coerces (get (heap ?w1 ! ob) k)"
      using Cons.prems by (simp add: register_simps)
    from Cons.IH [OF this] True show ?thesis
      by (simp add: addColor_def accept_all_def)
  next
    case False
    with Cons.prems have "coerces (get (heap w ! ob) key)" by simp
    then obtain hi where hi: "upper_bound d (get (heap w ! ob) key) = Inr hi"
      using coerces_iff by blast
    then have lo: "lower_bound d (get (heap w ! ob) key) = Inr (js_neg hi)"
      by (rule lower_of_upper)
    let ?w1 = "register f (RangeControl ob key (js_neg hi) hi) w"
    have "\<forall>k \<in> set ks. k \<noteq> ''color'' \<longrightarrow> coerces (get (heap ?w1 ! ob) k)"
      using Cons.prems by (simp add: register_simps)
    from Cons.IH [OF this] False hi lo show ?thesis
      by (simp add: folder_add_def accept_all_def)
  qed
qed

text \<open>A call of \<open>add\<close> that returns has allocated the clone at the next free address,
  with the properties of the input, has computed the bounds of every field, and has
  appended one folder with one control for each key.\<close>

lemma Debug_add_Inr:
  assumes "Debug_add P d n a w = (Inr c, w')"
  shows "c = length (heap w)"
    and "heap w' = heap w @ [heap w ! a]"
    and "gui w' = gui w @ [\<lparr>folder_name = n, folder_controls =
           map (control_for d (length (heap w)) (heap w ! a)) (keys (heap w ! a))\<rparr>]"
    and "\<forall>k \<in> set (keys (heap w ! a)). k \<noteq> ''color'' \<longrightarrow>
           (\<exists>hi. upper_bound d (get (heap w ! a) k) = Inr hi)"
proof -
  let ?w1 = "w\<lparr>heap := heap w @ [heap w ! a]\<rparr>"
  let ?ob = "length (heap w)"
  let ?w2 = "?w1\<lparr>gui := gui ?w1 @ [\<lparr>folder_name = n, folder_controls = []\<rparr>]\<rparr>"
  from assms have acc: "P (gui ?w1) (heap ?w1) (ReqFolder n)"
    by (auto simp: Debug_add_def clone_def addFolder_def split: if_splits)
  from assms acc have loop:
    "add_fields P d (length (gui w)) ?ob (keys (heap ?w2 ! ?ob)) ?w2 = (Inr (), w')"
    and c: "c = ?ob"
    by (auto simp: Debug_add_def clone_def addFolder_def split: prod.splits sum.splits)
  have "length (gui w) < length (gui ?w2)" by simp
  from add_fields_Inr [OF loop this]
  show "heap w' = heap w @ [heap w ! a]"
    and "gui w' = gui w @ [\<lparr>folder_name = n, folder_controls =
           map (control_for d (length (heap w)) (heap w ! a)) (keys (heap w ! a))\<rparr>]"
    and "\<forall>k \<in> set (keys (heap w ! a)). k \<noteq> ''color'' \<longrightarrow>
           (\<exists>hi. upper_bound d (get (heap w ! a) k) = Inr hi)"
    by simp_all
  show "c = length (heap w)" by (rule c)
qed


text \<open>Whatever the outcome, the store after the call is the store before it with the
  clone appended, the folders that were there are as they were, and every control of a
  new folder is bound to the clone.\<close>

lemma Debug_add_any:
  "heap (snd (Debug_add P d n a w)) = heap w @ [heap w ! a]"
  "take (length (gui w)) (gui (snd (Debug_add P d n a w))) = gui w"
  "\<forall>F \<in> set (drop (length (gui w)) (gui (snd (Debug_add P d n a w)))).
     \<forall>x \<in> set (folder_controls F). control_object x = length (heap w)"
proof -
  let ?R = "Debug_add P d n a w"
  have "heap (snd ?R) = heap w @ [heap w ! a]
     \<and> take (length (gui w)) (gui (snd ?R)) = gui w
     \<and> (\<forall>F \<in> set (drop (length (gui w)) (gui (snd ?R))).
          \<forall>x \<in> set (folder_controls F). control_object x = length (heap w))"
  proof (cases "P (gui w) (heap w @ [heap w ! a]) (ReqFolder n)")
    case False
    then show ?thesis by (simp add: Debug_add_def clone_def addFolder_def)
  next
    case True
    let ?w2 = "w\<lparr>heap := heap w @ [heap w ! a],
                 gui := gui w @ [\<lparr>folder_name = n, folder_controls = []\<rparr>]\<rparr>"
    let ?f = "length (gui w)"
    let ?r = "add_fields P d ?f (length (heap w)) (keys (heap w ! a)) ?w2"
    have s: "snd ?R = snd ?r"
      using True
      by (cases ?r) (auto simp: Debug_add_def clone_def addFolder_def split: sum.splits)
    have f2: "?f < length (gui ?w2)" by simp
    note any = add_fields_any [OF f2, of P d "length (heap w)" "keys (heap w ! a)"]
    from any have h: "heap (snd ?r) = heap w @ [heap w ! a]" by simp
    from any have l: "length (gui (snd ?r)) = Suc ?f" by simp
    from any have o: "\<forall>i < ?f. gui (snd ?r) ! i = gui w ! i"
      by (simp add: nth_append)
    from any have c: "\<forall>x \<in> set (folder_controls (gui (snd ?r) ! ?f)).
        control_object x = length (heap w)" by simp
    have t: "take ?f (gui (snd ?r)) = gui w"
      using l o by (simp add: list_eq_iff_nth_eq)
    have "drop ?f (gui (snd ?r)) = [gui (snd ?r) ! ?f]"
      using l by (simp add: list_eq_iff_nth_eq)
    with c have dr: "\<forall>F \<in> set (drop ?f (gui (snd ?r))).
        \<forall>x \<in> set (folder_controls F). control_object x = length (heap w)" by simp
    from h t dr show ?thesis unfolding s by blast
  qed
  then show "heap (snd ?R) = heap w @ [heap w ! a]"
    and "take (length (gui w)) (gui (snd ?R)) = gui w"
    and "\<forall>F \<in> set (drop (length (gui w)) (gui (snd ?R))).
          \<forall>x \<in> set (folder_controls F). control_object x = length (heap w)"
    by blast+
qed

text \<open>With a panel that accepts every call, \<open>add\<close> returns for a mapping whose fields
  convert to Numbers.\<close>

lemma Debug_add_accept_all:
  assumes "numeric_fields (heap w ! a)"
  shows "\<exists>w'. Debug_add accept_all d n a w = (Inr (length (heap w)), w')"
proof -
  let ?w2 = "w\<lparr>heap := heap w @ [heap w ! a],
               gui := gui w @ [\<lparr>folder_name = n, folder_controls = []\<rparr>]\<rparr>"
  have "\<forall>k \<in> set (keys (heap w ! a)). k \<noteq> ''color'' \<longrightarrow>
          coerces (get (heap ?w2 ! length (heap w)) k)"
    using assms by (simp add: numeric_fields_def)
  from add_fields_accept_all [OF this] obtain w' where
    "add_fields accept_all d (length (gui w)) (length (heap w)) (keys (heap w ! a)) ?w2
       = (Inr (), w')"
    by blast
  then show ?thesis
    by (simp add: Debug_add_def clone_def addFolder_def accept_all_def)
qed

lemma Debug_add_controls:
  assumes "Debug_add P d n a w = (Inr c, w')"
  shows "folder_controls (last (gui w')) = map (control_for d c (heap w ! a)) (keys (heap w ! a))"
    and "folder_name (last (gui w')) = n"
    and "heap w' ! c = heap w ! a"
  using Debug_add_Inr [OF assms] by simp_all

lemma control_key_control_for: "control_key (control_for d c props k) = k"
  by (simp add: control_for_def)


lemma control_object_control_for: "control_object (control_for d c props k) = c"
  by (simp add: control_for_def)

lemma get_assign_same: "get (assign j x ob) j = x"
  by (induction ob) (auto simp: get_def)

lemma gui_set_field: "gui (set_field b j x w) = gui w"
  by (simp add: set_field_def)

lemma control_for_number:
  "k \<noteq> ''color'' \<Longrightarrow> get props k = VNum v \<Longrightarrow>
     control_for d c props k =
       RangeControl c k (js_times (js_neg v) (multiple d)) (js_times v (multiple d))"
  by (simp add: control_for_def bounds_of_number)

text \<open>The example calls, run: the end-to-end example, a mapping with a negative and a
  positive field, the field 0.1, the example on a panel that refuses a name in use, and
  the example called a second time.\<close>

lemma light_add:
  "Debug_add accept_all (Debug_constructor None) ''Light'' 1 light_world =
     (Inr 2,
      \<lparr>heap = [[(''r'', VNum (Fin False 1 0)), (''g'', VNum (Fin False 1 0)),
                (''b'', VNum (Fin False 1 0))],
               [(''intensity'', VNum (Fin False 2 0)), (''color'', VObj 0)],
               [(''intensity'', VNum (Fin False 2 0)), (''color'', VObj 0)]],
       gui = [\<lparr>folder_name = ''Light'',
               folder_controls = [RangeControl 2 ''intensity'' (Fin True 6 0) (Fin False 6 0),
                                  ColorControl 2 ''color'']\<rparr>]\<rparr>)"
  by (simp add: Debug_add_def clone_def addFolder_def accept_all_def light_world_def
      Debug_constructor_def keys_def get_def addColor_def folder_add_def register_def
      lower_bound_def upper_bound_def round_double_def round_mantissa_def pack_def
      bit_length.simps Let_def)

lemma neg_add:
  "Debug_add accept_all (Debug_constructor (Some (Fin False 3 0))) ''g'' 0
     \<lparr>heap = [[(''x'', VNum (Fin True 2 0)), (''y'', VNum (Fin False 2 0))]], gui = []\<rparr> =
   (Inr 1, \<lparr>heap = [[(''x'', VNum (Fin True 2 0)), (''y'', VNum (Fin False 2 0))],
                     [(''x'', VNum (Fin True 2 0)), (''y'', VNum (Fin False 2 0))]],
            gui = [\<lparr>folder_name = ''g'',
                    folder_controls = [RangeControl 1 ''x'' (Fin False 6 0) (Fin True 6 0),
                                       RangeControl 1 ''y'' (Fin True 6 0) (Fin False 6 0)]\<rparr>]\<rparr>)"
  by (simp add: Debug_add_def clone_def addFolder_def accept_all_def
      Debug_constructor_def keys_def get_def addColor_def folder_add_def register_def
      lower_bound_def upper_bound_def round_double_def round_mantissa_def pack_def
      bit_length.simps Let_def)

lemma tenth_add:
  "Debug_add accept_all (Debug_constructor None) ''g'' 0
     \<lparr>heap = [[(''x'', VNum (Fin False 3602879701896397 (- 55)))]], gui = []\<rparr> =
   (Inr 1, \<lparr>heap = [[(''x'', VNum (Fin False 3602879701896397 (- 55)))],
                     [(''x'', VNum (Fin False 3602879701896397 (- 55)))]],
            gui = [\<lparr>folder_name = ''g'',
                    folder_controls =
                      [RangeControl 1 ''x'' (Fin True 5404319552844596 (- 54))
                                            (Fin False 5404319552844596 (- 54))]\<rparr>]\<rparr>)"
  by (simp add: Debug_add_def clone_def addFolder_def accept_all_def
      Debug_constructor_def keys_def get_def addColor_def folder_add_def register_def
      lower_bound_def upper_bound_def round_double_def round_mantissa_def pack_def
      bit_length.simps Let_def)

lemma light_add_unique:
  "Debug_add unique_folder_names (Debug_constructor None) ''Light'' 1 light_world =
     (Inr 2,
      \<lparr>heap = [[(''r'', VNum (Fin False 1 0)), (''g'', VNum (Fin False 1 0)),
                (''b'', VNum (Fin False 1 0))],
               [(''intensity'', VNum (Fin False 2 0)), (''color'', VObj 0)],
               [(''intensity'', VNum (Fin False 2 0)), (''color'', VObj 0)]],
       gui = [\<lparr>folder_name = ''Light'',
               folder_controls = [RangeControl 2 ''intensity'' (Fin True 6 0) (Fin False 6 0),
                                  ColorControl 2 ''color'']\<rparr>]\<rparr>)"
  by (simp add: Debug_add_def clone_def addFolder_def unique_folder_names_def light_world_def
      Debug_constructor_def keys_def get_def addColor_def folder_add_def register_def
      lower_bound_def upper_bound_def round_double_def round_mantissa_def pack_def
      bit_length.simps Let_def)

lemma light_add_again:
  "Debug_add accept_all (Debug_constructor None) ''Light'' 1
     (snd (Debug_add accept_all (Debug_constructor None) ''Light'' 1 light_world)) =
     (Inr 3,
      \<lparr>heap = [[(''r'', VNum (Fin False 1 0)), (''g'', VNum (Fin False 1 0)),
                (''b'', VNum (Fin False 1 0))],
               [(''intensity'', VNum (Fin False 2 0)), (''color'', VObj 0)],
               [(''intensity'', VNum (Fin False 2 0)), (''color'', VObj 0)],
               [(''intensity'', VNum (Fin False 2 0)), (''color'', VObj 0)]],
       gui = [\<lparr>folder_name = ''Light'',
               folder_controls = [RangeControl 2 ''intensity'' (Fin True 6 0) (Fin False 6 0),
                                  ColorControl 2 ''color'']\<rparr>,
              \<lparr>folder_name = ''Light'',
               folder_controls = [RangeControl 3 ''intensity'' (Fin True 6 0) (Fin False 6 0),
                                  ColorControl 3 ''color'']\<rparr>]\<rparr>)"
  unfolding light_add
  by (simp add: Debug_add_def clone_def addFolder_def accept_all_def
      Debug_constructor_def keys_def get_def addColor_def folder_add_def register_def
      lower_bound_def upper_bound_def round_double_def round_mantissa_def pack_def
      bit_length.simps Let_def)

section \<open>Properties of the binder and the composer\<close>

subsection \<open>C1: the bounds of a numeric field\<close>

text \<open>
  C1, as amended. When \<open>add\<close> returns, the control requested for a numeric field of
  value \<open>v\<close>, by a binder of multiple \<open>m\<close>, has the minimum \<open>-v * m\<close> and the maximum
  \<open>v * m\<close>, as products of doubles; no control of that field has other bounds, and the
  minimum is the negated maximum. For a positive multiple, and when the product \<open>v * m\<close>
  is not a zero, the bounds are in order (minimum below maximum) when \<open>v > 0\<close> and
  reversed (minimum above maximum) when \<open>v < 0\<close>. The bounds are numbers held by the
  panel: no later assignment to a field of any object changes them.
\<close>

theorem add_bounds:
  assumes "Debug_add P d n a w = (Inr c, w')"
    and "k \<in> set (keys (heap w ! a))" and "k \<noteq> ''color''"
    and "get (heap w ! a) k = VNum v"
  shows "RangeControl c k (js_times (js_neg v) (multiple d)) (js_times v (multiple d))
           \<in> set (folder_controls (last (gui w')))
     \<and> (\<forall>x \<in> set (folder_controls (last (gui w'))).
          control_key x = k \<longrightarrow>
          x = RangeControl c k (js_times (js_neg v) (multiple d)) (js_times v (multiple d)))
     \<and> js_times (js_neg v) (multiple d) = js_neg (js_times v (multiple d))
     \<and> (is_positive (multiple d) \<and> is_positive v \<and> \<not> is_zero (js_times v (multiple d)) \<longrightarrow>
          js_less (js_times (js_neg v) (multiple d)) (js_times v (multiple d)))
     \<and> (is_positive (multiple d) \<and> is_negative v \<and> \<not> is_zero (js_times v (multiple d)) \<longrightarrow>
          reversed (RangeControl c k (js_times (js_neg v) (multiple d))
                                     (js_times v (multiple d))))
     \<and> (\<forall>b j x. gui (set_field b j x w') = gui w')"
proof -
  let ?F = "folder_controls (last (gui w'))"
  let ?lo = "js_times (js_neg v) (multiple d)"
  let ?hi = "js_times v (multiple d)"
  let ?R = "RangeControl c k ?lo ?hi"
  have F: "?F = map (control_for d c (heap w ! a)) (keys (heap w ! a))"
    by (rule Debug_add_controls(1) [OF assms(1)])
  have R: "control_for d c (heap w ! a) k = ?R"
    by (rule control_for_number [OF assms(3) assms(4)])
  have 1: "?R \<in> set ?F"
    using assms(2) R F by force
  have 2: "\<forall>x \<in> set ?F. control_key x = k \<longrightarrow> x = ?R"
    using R F by (auto simp: control_key_control_for)
  have 3: "?lo = js_neg ?hi" by (rule js_times_neg)
  have 4: "is_positive (multiple d) \<and> is_positive v \<and> \<not> is_zero ?hi \<longrightarrow> js_less ?lo ?hi"
  proof
    assume h: "is_positive (multiple d) \<and> is_positive v \<and> \<not> is_zero ?hi"
    then have "is_positive ?hi" by (simp add: js_times_positive)
    then have "js_less (js_neg ?hi) ?hi" by (rule less_neg_positive)
    then show "js_less ?lo ?hi" by (simp add: 3)
  qed
  have 5: "is_positive (multiple d) \<and> is_negative v \<and> \<not> is_zero ?hi \<longrightarrow> reversed ?R"
  proof
    assume h: "is_positive (multiple d) \<and> is_negative v \<and> \<not> is_zero ?hi"
    then have pv: "is_positive (js_neg v)" by (simp add: is_negative_neg)
    from h have "\<not> is_zero ?lo" by (simp add: 3 is_zero_neg)
    with h pv have "is_positive ?lo" by (simp add: js_times_positive)
    then have "js_less (js_neg ?lo) ?lo" by (rule less_neg_positive)
    moreover have "js_neg ?lo = ?hi" by (simp add: 3 js_neg_neg)
    ultimately show "reversed ?R" by simp
  qed
  have 6: "\<forall>b j x. gui (set_field b j x w') = gui w'"
    by (simp add: gui_set_field)
  from 1 2 3 4 5 6 show ?thesis by blast
qed

text \<open>
  C1 at \<open>{ x: -2, y: 2 }\<close> with multiple 3: \<open>x\<close> gets the reversed bounds 6 and -6,
  \<open>y\<close> the bounds -6 and 6.
\<close>

theorem add_bounds_witness:
  "RangeControl 1 ''x'' (Fin False 6 0) (Fin True 6 0) \<in>
     set (folder_controls (last (gui (snd (Debug_add accept_all
       (Debug_constructor (Some (Fin False 3 0))) ''g'' 0
       \<lparr>heap = [[(''x'', VNum (Fin True 2 0)), (''y'', VNum (Fin False 2 0))]], gui = []\<rparr>)))))
   \<and> reversed (RangeControl 1 ''x'' (Fin False 6 0) (Fin True 6 0))
   \<and> RangeControl 1 ''y'' (Fin True 6 0) (Fin False 6 0) \<in>
     set (folder_controls (last (gui (snd (Debug_add accept_all
       (Debug_constructor (Some (Fin False 3 0))) ''g'' 0
       \<lparr>heap = [[(''x'', VNum (Fin True 2 0)), (''y'', VNum (Fin False 2 0))]], gui = []\<rparr>)))))
   \<and> js_less (Fin True 6 0) (Fin False 6 0)"
proof -
  let ?w = "\<lparr>heap = [[(''x'', VNum (Fin True 2 0)), (''y'', VNum (Fin False 2 0))]], gui = []\<rparr>"
  let ?d = "Debug_constructor (Some (Fin False 3 0))"
  let ?S = "snd (Debug_add accept_all ?d ''g'' 0 ?w)"
  have ok: "Debug_add accept_all ?d ''g'' 0 ?w = (Inr 1, ?S)"
    by (simp only: neg_add snd_conv)
  have kx: "''x'' \<in> set (keys (heap ?w ! 0))" and ky: "''y'' \<in> set (keys (heap ?w ! 0))"
    by (simp_all add: keys_def)
  have nx: "''x'' \<noteq> ''color''" and ny: "''y'' \<noteq> ''color''" by simp_all
  have gx: "get (heap ?w ! 0) ''x'' = VNum (Fin True 2 0)"
    and gy: "get (heap ?w ! 0) ''y'' = VNum (Fin False 2 0)"
    by (simp_all add: get_def)
  have lx: "js_times (js_neg (Fin True 2 0)) (multiple ?d) = Fin False 6 0"
    and hx: "js_times (Fin True 2 0) (multiple ?d) = Fin True 6 0"
    and ly: "js_times (js_neg (Fin False 2 0)) (multiple ?d) = Fin True 6 0"
    and hy: "js_times (Fin False 2 0) (multiple ?d) = Fin False 6 0"
    by (simp_all add: Debug_constructor_def round_double_def round_mantissa_def pack_def
        bit_length.simps Let_def)
  have pm: "is_positive (multiple ?d)"
    by (simp add: Debug_constructor_def is_positive_def fin_value_def)
  have sx: "is_negative (Fin True 2 0)" and sy: "is_positive (Fin False 2 0)"
    by (simp_all add: is_positive_def is_negative_def fin_value_def)
  have zx: "\<not> is_zero (js_times (Fin True 2 0) (multiple ?d))"
    and zy: "\<not> is_zero (js_times (Fin False 2 0) (multiple ?d))"
    by (simp_all add: hx hy)
  note tx = add_bounds [OF ok kx nx gx] and ty = add_bounds [OF ok ky ny gy]
  from tx pm sx zx have "RangeControl 1 ''x'' (js_times (js_neg (Fin True 2 0)) (multiple ?d))
        (js_times (Fin True 2 0) (multiple ?d)) \<in> set (folder_controls (last (gui ?S)))
     \<and> reversed (RangeControl 1 ''x'' (js_times (js_neg (Fin True 2 0)) (multiple ?d))
        (js_times (Fin True 2 0) (multiple ?d)))"
    by blast
  then have X: "RangeControl 1 ''x'' (Fin False 6 0) (Fin True 6 0)
        \<in> set (folder_controls (last (gui ?S)))
     \<and> reversed (RangeControl 1 ''x'' (Fin False 6 0) (Fin True 6 0))"
    unfolding lx hx .
  from ty pm sy zy have "RangeControl 1 ''y'' (js_times (js_neg (Fin False 2 0)) (multiple ?d))
        (js_times (Fin False 2 0) (multiple ?d)) \<in> set (folder_controls (last (gui ?S)))
     \<and> js_less (js_times (js_neg (Fin False 2 0)) (multiple ?d))
        (js_times (Fin False 2 0) (multiple ?d))"
    by blast
  then have Y: "RangeControl 1 ''y'' (Fin True 6 0) (Fin False 6 0)
        \<in> set (folder_controls (last (gui ?S)))
     \<and> js_less (Fin True 6 0) (Fin False 6 0)"
    unfolding ly hy .
  from X Y show ?thesis by blast
qed

text \<open>
  C1 as first stated speaks of every multiple. With the multiple -3 the field
  \<open>x = -2\<close> gets the minimum -6 and the maximum 6: the value is negative and the
  bounds are not reversed.
\<close>

theorem add_bounds_counterexample:
  "folder_controls (last (gui (snd
     (Debug_add accept_all (Debug_constructor (Some (Fin True 3 0))) ''g'' 0
        \<lparr>heap = [[(''x'', VNum (Fin True 2 0))]], gui = []\<rparr>)))) =
     [RangeControl 1 ''x'' (Fin True 6 0) (Fin False 6 0)]
   \<and> \<not> reversed (RangeControl 1 ''x'' (Fin True 6 0) (Fin False 6 0))"
  by (simp add: Debug_add_def clone_def addFolder_def accept_all_def
      Debug_constructor_def keys_def get_def addColor_def folder_add_def register_def
      lower_bound_def upper_bound_def round_double_def round_mantissa_def pack_def
      bit_length.simps Let_def fin_value_def)

text \<open>
  The product must not be a zero: with the multiple \<open>1e-200\<close> the field
  \<open>x = -1e-200\<close> gets the minimum 0 and the maximum -0, which are equal.
\<close>

lemma underflow_not_reversed:
  "folder_controls (last (gui (snd
     (Debug_add accept_all (Debug_constructor (Some (Fin False 1723641332219371 (- 715)))) ''g'' 0
        \<lparr>heap = [[(''x'', VNum (Fin True 1723641332219371 (- 715)))]], gui = []\<rparr>)))) =
     [RangeControl 1 ''x'' (Fin False 0 0) (Fin True 0 0)]
   \<and> \<not> reversed (RangeControl 1 ''x'' (Fin False 0 0) (Fin True 0 0))"
  by (simp add: Debug_add_def clone_def addFolder_def accept_all_def
      Debug_constructor_def keys_def get_def addColor_def folder_add_def register_def
      lower_bound_def upper_bound_def round_double_def round_mantissa_def pack_def
      bit_length.simps Let_def fin_value_def)

subsection \<open>C2: the input mapping is left alone\<close>

text \<open>
  C2. Whatever the outcome of \<open>add\<close>, the input mapping holds after the call what it
  held before, the folders that were in the panel are as they were, and no control of a
  new folder is bound to the input: an edit through such a control leaves the input as
  it was. When \<open>add\<close> returns, what it returns is an object of the store that was not
  there before, at another address than the input and with the content of the input;
  the panel has one more folder, with one control for each key, all bound to the
  returned object; and assigning to any field of the returned object changes no field
  of the input.
\<close>

theorem add_leaves_original:
  assumes "a < length (heap w)"
  shows "heap (snd (Debug_add P d n a w)) ! a = heap w ! a
     \<and> take (length (gui w)) (gui (snd (Debug_add P d n a w))) = gui w
     \<and> (\<forall>F \<in> set (drop (length (gui w)) (gui (snd (Debug_add P d n a w)))).
          \<forall>x \<in> set (folder_controls F).
            control_object x \<noteq> a
          \<and> (\<forall>v. heap (panel_edit x v (snd (Debug_add P d n a w))) ! a = heap w ! a))
     \<and> (\<forall>c w'. Debug_add P d n a w = (Inr c, w') \<longrightarrow>
          c \<noteq> a \<and> length (heap w) \<le> c \<and> c < length (heap w')
        \<and> heap w' ! c = heap w ! a
        \<and> length (gui w') = Suc (length (gui w))
        \<and> map control_key (folder_controls (last (gui w'))) = keys (heap w ! a)
        \<and> (\<forall>x \<in> set (folder_controls (last (gui w'))). control_object x = c)
        \<and> (\<forall>k v. heap (set_field c k v w') ! a = heap w ! a))"
proof -
  let ?R = "Debug_add P d n a w"
  note any = Debug_add_any [where P = P and d = d and n = n and a = a and w = w]
  have 1: "heap (snd ?R) ! a = heap w ! a"
    using assms by (simp add: any(1) nth_append)
  have 2: "take (length (gui w)) (gui (snd ?R)) = gui w" by (rule any(2))
  have 3: "control_object x \<noteq> a \<and> (\<forall>v. heap (panel_edit x v (snd ?R)) ! a = heap w ! a)"
    if F: "F \<in> set (drop (length (gui w)) (gui (snd ?R)))"
      and x: "x \<in> set (folder_controls F)" for F x
  proof -
    from any(3) F x have o: "control_object x = length (heap w)" by blast
    with assms have ne: "control_object x \<noteq> a" by simp
    from o assms have "heap (panel_edit x v (snd ?R)) ! a = heap w ! a" for v
      by (simp add: panel_edit_def set_field_def any(1) nth_append)
    with ne show ?thesis by simp
  qed
  have 4: "c \<noteq> a \<and> length (heap w) \<le> c \<and> c < length (heap w')
        \<and> heap w' ! c = heap w ! a
        \<and> length (gui w') = Suc (length (gui w))
        \<and> map control_key (folder_controls (last (gui w'))) = keys (heap w ! a)
        \<and> (\<forall>x \<in> set (folder_controls (last (gui w'))). control_object x = c)
        \<and> (\<forall>k v. heap (set_field c k v w') ! a = heap w ! a)"
    if ok: "Debug_add P d n a w = (Inr c, w')" for c w'
  proof -
    note r = Debug_add_Inr [OF ok]
    have c: "c = length (heap w)" by (rule r(1))
    have h: "heap w' = heap w @ [heap w ! a]" by (rule r(2))
    from c assms have ne: "c \<noteq> a" by simp
    from c h have al: "length (heap w) \<le> c \<and> c < length (heap w')" by simp
    from c h have cp: "heap w' ! c = heap w ! a" by simp
    have lg: "length (gui w') = Suc (length (gui w))" by (simp add: r(3))
    have F: "folder_controls (last (gui w')) =
        map (control_for d c (heap w ! a)) (keys (heap w ! a))"
      by (rule Debug_add_controls(1) [OF ok])
    have ks: "map control_key (folder_controls (last (gui w'))) = keys (heap w ! a)"
      by (simp add: F control_key_control_for comp_def)
    have bo: "\<forall>x \<in> set (folder_controls (last (gui w'))). control_object x = c"
      by (auto simp: F control_object_control_for)
    from ne h assms have sf: "heap (set_field c k v w') ! a = heap w ! a" for k v
      by (simp add: set_field_def nth_append)
    from ne al cp lg ks bo sf show ?thesis by blast
  qed
  from 1 2 3 4 show ?thesis by blast
qed

text \<open>
  C2 on the end-to-end example: the clone is object 2, the input object 1, the
  controls are bound to object 2, and setting the clone's \<open>intensity\<close> to 5 leaves the
  input as it was.
\<close>

theorem add_leaves_original_witness:
  "heap (snd (Debug_add accept_all (Debug_constructor None) ''Light'' 1 light_world)) ! 1 =
     [(''intensity'', VNum (Fin False 2 0)), (''color'', VObj 0)]
   \<and> (2::nat) \<noteq> 1
   \<and> heap (snd (Debug_add accept_all (Debug_constructor None) ''Light'' 1 light_world)) ! 2 =
     [(''intensity'', VNum (Fin False 2 0)), (''color'', VObj 0)]
   \<and> map control_object (folder_controls (last (gui (snd
        (Debug_add accept_all (Debug_constructor None) ''Light'' 1 light_world))))) = [2, 2]
   \<and> heap (set_field 2 ''intensity'' (VNum (Fin False 5 0))
        (snd (Debug_add accept_all (Debug_constructor None) ''Light'' 1 light_world))) ! 1 =
     [(''intensity'', VNum (Fin False 2 0)), (''color'', VObj 0)]"
proof -
  have v: "1 < length (heap light_world)" by (simp add: light_world_def)
  have o: "heap light_world ! 1 = [(''intensity'', VNum (Fin False 2 0)), (''color'', VObj 0)]"
    by (simp add: light_world_def)
  from add_leaves_original [OF v, where P = accept_all and d = "Debug_constructor None"
      and n = "''Light''"]
  have "\<forall>c w'. Debug_add accept_all (Debug_constructor None) ''Light'' 1 light_world = (Inr c, w')
      \<longrightarrow> c \<noteq> 1 \<and> heap w' ! c = heap light_world ! 1
        \<and> (\<forall>k v. heap (set_field c k v w') ! 1 = heap light_world ! 1)"
    by blast
  from this [rule_format, OF light_add]
  have "(2::nat) \<noteq> 1
     \<and> heap (snd (Debug_add accept_all (Debug_constructor None) ''Light'' 1 light_world)) ! 2 =
         heap light_world ! 1
     \<and> heap (set_field 2 ''intensity'' (VNum (Fin False 5 0))
          (snd (Debug_add accept_all (Debug_constructor None) ''Light'' 1 light_world))) ! 1 =
         heap light_world ! 1"
    unfolding light_add snd_conv by blast
  moreover have "heap (snd (Debug_add accept_all (Debug_constructor None) ''Light'' 1
      light_world)) ! 1 = heap light_world ! 1"
    unfolding light_add by (simp add: light_world_def)
  moreover have "map control_object (folder_controls (last (gui (snd
        (Debug_add accept_all (Debug_constructor None) ''Light'' 1 light_world))))) = [2, 2]"
    unfolding light_add by simp
  ultimately show ?thesis unfolding o by blast
qed

subsection \<open>C3: the clone equals the input\<close>

text \<open>
  C3. For a mapping without a field named \<open>color\<close>, when \<open>add\<close> returns, the clone
  has the keys of the input, in the same order, and at every key the value the input
  had when \<open>add\<close> was called.
\<close>

theorem add_clone_equal:
  assumes "Debug_add P d n a w = (Inr c, w')"
    and "''color'' \<notin> set (keys (heap w ! a))"
  shows "keys (heap w' ! c) = keys (heap w ! a)
     \<and> set (keys (heap w' ! c)) = set (keys (heap w ! a))
     \<and> (\<forall>k. get (heap w' ! c) k = get (heap w ! a) k)"
  using Debug_add_controls(3) [OF assms(1)] by simp

text \<open>
  C3 at \<open>{ x: -2, y: 2 }\<close>.
\<close>

theorem add_clone_equal_witness:
  "keys (heap (snd (Debug_add accept_all (Debug_constructor (Some (Fin False 3 0))) ''g'' 0
       \<lparr>heap = [[(''x'', VNum (Fin True 2 0)), (''y'', VNum (Fin False 2 0))]], gui = []\<rparr>)) ! 1) = [''x'', ''y'']
   \<and> get (heap (snd (Debug_add accept_all (Debug_constructor (Some (Fin False 3 0))) ''g'' 0
       \<lparr>heap = [[(''x'', VNum (Fin True 2 0)), (''y'', VNum (Fin False 2 0))]], gui = []\<rparr>)) ! 1) ''x'' = VNum (Fin True 2 0)"
proof -
  let ?w = "\<lparr>heap = [[(''x'', VNum (Fin True 2 0)), (''y'', VNum (Fin False 2 0))]], gui = []\<rparr>"
  have nc: "''color'' \<notin> set (keys (heap ?w ! 0))" by (simp add: keys_def)
  from add_clone_equal [OF neg_add nc] show ?thesis
    by (simp add: neg_add keys_def get_def)
qed

subsection \<open>C4: a colour control for color, a range for the rest\<close>



subsection \<open>C5: the errors\<close>




subsection \<open>C6: the same name twice\<close>

text \<open>
  C6, as amended. \<open>add\<close> does not look at the names in use: it asks the panel for a
  folder on every call. On a panel that accepts every call, two calls with the same
  name both return, for mappings whose fields convert to Numbers (the second mapping
  is read once the first clone is in the store). Whenever two calls with the same
  name both return, on any panel, the clones are two objects, the panel has two more
  folders of that name, each with controls bound to its own clone, and assigning to a
  field of one clone does not change the other.
\<close>

theorem add_twice:
  "(numeric_fields (heap w ! a) \<and> numeric_fields ((heap w @ [heap w ! a]) ! b) \<longrightarrow>
      (\<exists>c1 w1 c2 w2. Debug_add accept_all d n a w = (Inr c1, w1)
                \<and> Debug_add accept_all d n b w1 = (Inr c2, w2)))
   \<and> (\<forall>c1 w1 c2 w2.
        Debug_add P d n a w = (Inr c1, w1) \<and> Debug_add P d n b w1 = (Inr c2, w2) \<longrightarrow>
          c1 \<noteq> c2
        \<and> length (gui w2) = length (gui w) + 2
        \<and> folder_name (gui w2 ! length (gui w)) = n
        \<and> folder_name (gui w2 ! Suc (length (gui w))) = n
        \<and> (\<forall>x \<in> set (folder_controls (gui w2 ! length (gui w))). control_object x = c1)
        \<and> (\<forall>x \<in> set (folder_controls (gui w2 ! Suc (length (gui w)))). control_object x = c2)
        \<and> (\<forall>k v. heap (set_field c1 k v w2) ! c2 = heap w2 ! c2)
        \<and> (\<forall>k v. heap (set_field c2 k v w2) ! c1 = heap w2 ! c1))"
proof -
  have ex: "numeric_fields (heap w ! a) \<and> numeric_fields ((heap w @ [heap w ! a]) ! b) \<longrightarrow>
      (\<exists>c1 w1 c2 w2. Debug_add accept_all d n a w = (Inr c1, w1)
                \<and> Debug_add accept_all d n b w1 = (Inr c2, w2))"
  proof
    assume nf: "numeric_fields (heap w ! a) \<and> numeric_fields ((heap w @ [heap w ! a]) ! b)"
    then obtain w1 where 1: "Debug_add accept_all d n a w = (Inr (length (heap w)), w1)"
      using Debug_add_accept_all by blast
    from Debug_add_Inr(2) [OF 1] nf have "numeric_fields (heap w1 ! b)" by simp
    then obtain w2 where "Debug_add accept_all d n b w1 = (Inr (length (heap w1)), w2)"
      using Debug_add_accept_all by blast
    with 1 show "\<exists>c1 w1 c2 w2. Debug_add accept_all d n a w = (Inr c1, w1)
                \<and> Debug_add accept_all d n b w1 = (Inr c2, w2)" by blast
  qed
  have two: "c1 \<noteq> c2
        \<and> length (gui w2) = length (gui w) + 2
        \<and> folder_name (gui w2 ! length (gui w)) = n
        \<and> folder_name (gui w2 ! Suc (length (gui w))) = n
        \<and> (\<forall>x \<in> set (folder_controls (gui w2 ! length (gui w))). control_object x = c1)
        \<and> (\<forall>x \<in> set (folder_controls (gui w2 ! Suc (length (gui w)))). control_object x = c2)
        \<and> (\<forall>k v. heap (set_field c1 k v w2) ! c2 = heap w2 ! c2)
        \<and> (\<forall>k v. heap (set_field c2 k v w2) ! c1 = heap w2 ! c1)"
    if ok: "Debug_add P d n a w = (Inr c1, w1) \<and> Debug_add P d n b w1 = (Inr c2, w2)"
    for c1 w1 c2 w2
  proof -
    from ok have A: "Debug_add P d n a w = (Inr c1, w1)"
      and B: "Debug_add P d n b w1 = (Inr c2, w2)" by simp_all
    note a = Debug_add_Inr [OF A] and b = Debug_add_Inr [OF B]
    have c1: "c1 = length (heap w)" and c2: "c2 = Suc (length (heap w))"
      using a(1,2) b(1) by simp_all
    have len: "length (heap w2) = length (heap w) + 2" using a(2) b(2) by simp
    have g: "gui w2 = gui w @
        [\<lparr>folder_name = n, folder_controls =
            map (control_for d c1 (heap w ! a)) (keys (heap w ! a))\<rparr>,
         \<lparr>folder_name = n, folder_controls =
            map (control_for d c2 (heap w1 ! b)) (keys (heap w1 ! b))\<rparr>]"
      using a(1,2,3) b(1,3) by simp
    have g1: "gui w2 ! length (gui w) =
        \<lparr>folder_name = n, folder_controls =
            map (control_for d c1 (heap w ! a)) (keys (heap w ! a))\<rparr>"
      by (simp add: g)
    have g2: "gui w2 ! Suc (length (gui w)) =
        \<lparr>folder_name = n, folder_controls =
            map (control_for d c2 (heap w1 ! b)) (keys (heap w1 ! b))\<rparr>"
      by (simp add: g nth_append)
    have s1: "heap (set_field c1 k v w2) ! c2 = heap w2 ! c2" for k v
      using c1 c2 len by (simp add: set_field_def)
    have s2: "heap (set_field c2 k v w2) ! c1 = heap w2 ! c1" for k v
      using c1 c2 len by (simp add: set_field_def)
    have l: "length (gui w2) = length (gui w) + 2" by (simp add: g)
    have o1: "\<forall>x \<in> set (folder_controls (gui w2 ! length (gui w))). control_object x = c1"
      by (auto simp: g1 control_object_control_for)
    have o2: "\<forall>x \<in> set (folder_controls (gui w2 ! Suc (length (gui w)))). control_object x = c2"
      by (auto simp: g2 control_object_control_for)
    have n1: "folder_name (gui w2 ! length (gui w)) = n" by (simp add: g1)
    have n2: "folder_name (gui w2 ! Suc (length (gui w))) = n" by (simp add: g2)
    have ne: "c1 \<noteq> c2" using c1 c2 by simp
    from ne l n1 n2 o1 o2 s1 s2 show ?thesis by blast
  qed
  from ex two show ?thesis by blast
qed

text \<open>
  C6 on the end-to-end example, called twice on a panel that accepts every call.
\<close>

theorem add_twice_witness:
  "Debug_add accept_all (Debug_constructor None) ''Light'' 1 light_world =
     (Inr 2, snd (Debug_add accept_all (Debug_constructor None) ''Light'' 1 light_world))
   \<and> fst (Debug_add accept_all (Debug_constructor None) ''Light'' 1
       (snd (Debug_add accept_all (Debug_constructor None) ''Light'' 1 light_world))) = Inr 3
   \<and> (2::nat) \<noteq> 3
   \<and> length (gui (snd (Debug_add accept_all (Debug_constructor None) ''Light'' 1
       (snd (Debug_add accept_all (Debug_constructor None) ''Light'' 1 light_world))))) = 2"
proof -
  have A: "Debug_add accept_all (Debug_constructor None) ''Light'' 1 light_world =
     (Inr 2, snd (Debug_add accept_all (Debug_constructor None) ''Light'' 1 light_world))"
    by (simp only: light_add snd_conv)
  have B: "Debug_add accept_all (Debug_constructor None) ''Light'' 1
       (snd (Debug_add accept_all (Debug_constructor None) ''Light'' 1 light_world)) =
     (Inr 3, snd (Debug_add accept_all (Debug_constructor None) ''Light'' 1
       (snd (Debug_add accept_all (Debug_constructor None) ''Light'' 1 light_world))))"
    by (simp only: light_add_again snd_conv)
  have g0: "length (gui light_world) = 0" by (simp add: light_world_def)
  from add_twice [of light_world 1 1 "Debug_constructor None" "''Light''" accept_all]
  have r: "2 \<noteq> (3::nat) \<and> length (gui (snd (Debug_add accept_all (Debug_constructor None) ''Light'' 1
       (snd (Debug_add accept_all (Debug_constructor None) ''Light'' 1 light_world))))) =
       length (gui light_world) + 2"
    using A B by blast
  from r have L: "length (gui (snd (Debug_add accept_all (Debug_constructor None) ''Light'' 1
       (snd (Debug_add accept_all (Debug_constructor None) ''Light'' 1 light_world))))) = 2"
    unfolding g0 by simp
  from r have ne: "(2::nat) \<noteq> 3" by (rule conjunct1)
  from B have B': "fst (Debug_add accept_all (Debug_constructor None) ''Light'' 1
       (snd (Debug_add accept_all (Debug_constructor None) ''Light'' 1 light_world))) = Inr 3"
    by (metis fst_conv)
  show ?thesis using A B' ne L by blast
qed

text \<open>
  C6 as first stated says that the second call succeeds. On a panel that refuses a
  name in use, as dat.gui does, the second call of the end-to-end example fails.
\<close>

theorem add_twice_counterexample:
  "fst (Debug_add unique_folder_names (Debug_constructor None) ''Light'' 1
         (snd (Debug_add unique_folder_names (Debug_constructor None) ''Light'' 1 light_world)))
   = Inl PanelError"
  unfolding light_add_unique
  by (simp add: Debug_add_def clone_def addFolder_def unique_folder_names_def)

subsection \<open>C7: the order within a frame\<close>

text \<open>
  C7. A run of \<open>animate\<close> calls the debug callbacks, in the order of the list, then
  updates the control, then renders, then requests the next frame for itself; it
  renders exactly once and the request is the last thing it does.
\<close>

theorem animate_order:
  "take (length (debugList L)) (animate L) = map DebugCallback (debugList L)
   \<and> drop (length (debugList L)) (animate L) =
       [ControlUpdate (control L), Render (renderer L) (scene L) (camera L),
        RequestAnimationFrame Lego_animate]
   \<and> length (filter is_render (animate L)) = 1
   \<and> last (animate L) = RequestAnimationFrame Lego_animate"
proof -
  have "filter is_render (map DebugCallback xs) = []" for xs
    by (induction xs) simp_all
  then show ?thesis by (simp add: animate_def)
qed

subsection \<open>C8: the default multiple\<close>

text \<open>
  C8. The constructor of \<open>Debug\<close> takes one argument, the multiple; left out, it is
  3, and given, it is kept. With the default, when \<open>add\<close> returns, a numeric field of
  value \<open>v\<close> has a control with the minimum \<open>-v * 3\<close> and the maximum \<open>v * 3\<close>, as
  products of doubles, the minimum being the negated maximum.
\<close>

theorem Debug_default_multiple:
  "multiple (Debug_constructor None) = Fin False 3 0
   \<and> (\<forall>m. multiple (Debug_constructor (Some m)) = m)
   \<and> (\<forall>c w'. Debug_add P (Debug_constructor None) n a w = (Inr c, w')
               \<and> k \<in> set (keys (heap w ! a)) \<and> k \<noteq> ''color''
               \<and> get (heap w ! a) k = VNum v \<longrightarrow>
        RangeControl c k (js_times (js_neg v) (Fin False 3 0)) (js_times v (Fin False 3 0))
          \<in> set (folder_controls (last (gui w')))
      \<and> js_times (js_neg v) (Fin False 3 0) = js_neg (js_times v (Fin False 3 0)))"
proof -
  have m: "multiple (Debug_constructor None) = Fin False 3 0"
    by (simp add: Debug_constructor_def)
  have s: "\<forall>m. multiple (Debug_constructor (Some m)) = m"
    by (simp add: Debug_constructor_def)
  have r: "RangeControl c k (js_times (js_neg v) (Fin False 3 0)) (js_times v (Fin False 3 0))
          \<in> set (folder_controls (last (gui w')))
      \<and> js_times (js_neg v) (Fin False 3 0) = js_neg (js_times v (Fin False 3 0))"
    if h: "Debug_add P (Debug_constructor None) n a w = (Inr c, w')
               \<and> k \<in> set (keys (heap w ! a)) \<and> k \<noteq> ''color''
               \<and> get (heap w ! a) k = VNum v" for c w'
  proof -
    from h have ok: "Debug_add P (Debug_constructor None) n a w = (Inr c, w')"
      and k: "k \<in> set (keys (heap w ! a))" and nc: "k \<noteq> ''color''"
      and g: "get (heap w ! a) k = VNum v" by simp_all
    have "control_for (Debug_constructor None) c (heap w ! a) k =
            RangeControl c k (js_times (js_neg v) (Fin False 3 0)) (js_times v (Fin False 3 0))"
      using control_for_number [OF nc g, of "Debug_constructor None" c] by (simp add: m)
    with k have "RangeControl c k (js_times (js_neg v) (Fin False 3 0))
        (js_times v (Fin False 3 0)) \<in> set (folder_controls (last (gui w')))"
      unfolding Debug_add_controls(1) [OF ok] by force
    then show ?thesis by (simp add: js_times_neg)
  qed
  from m s r show ?thesis by blast
qed

text \<open>
  C8 on the end-to-end example: \<open>intensity: 2\<close> ranges from -6 to 6. And on
  \<open>{ x: 0.1 }\<close>: the bounds are -0.30000000000000004 and 0.30000000000000004, the
  double \<open>1351079888211149 / 2 ^ 52\<close>.
\<close>

theorem Debug_default_multiple_witness:
  "RangeControl 2 ''intensity'' (Fin True 6 0) (Fin False 6 0) \<in> set (folder_controls (last (gui
      (snd (Debug_add accept_all (Debug_constructor None) ''Light'' 1 light_world)))))
   \<and> RangeControl 1 ''x'' (Fin True 5404319552844596 (- 54)) (Fin False 5404319552844596 (- 54))
       \<in> set (folder_controls (last (gui (snd (Debug_add accept_all (Debug_constructor None) ''g'' 0
           \<lparr>heap = [[(''x'', VNum (Fin False 3602879701896397 (- 55)))]], gui = []\<rparr>)))))
   \<and> fin_value False 5404319552844596 (- 54) = 1351079888211149 / 4503599627370496"
proof -
  let ?S = "snd (Debug_add accept_all (Debug_constructor None) ''Light'' 1 light_world)"
  let ?t = "\<lparr>heap = [[(''x'', VNum (Fin False 3602879701896397 (- 55)))]], gui = []\<rparr>"
  let ?T = "snd (Debug_add accept_all (Debug_constructor None) ''g'' 0 ?t)"
  have ok: "Debug_add accept_all (Debug_constructor None) ''Light'' 1 light_world = (Inr 2, ?S)"
    by (simp only: light_add snd_conv)
  have ok2: "Debug_add accept_all (Debug_constructor None) ''g'' 0 ?t = (Inr 1, ?T)"
    by (simp only: tenth_add snd_conv)
  have k: "''intensity'' \<in> set (keys (heap light_world ! 1))"
    by (simp add: light_world_def keys_def)
  have nc: "''intensity'' \<noteq> ''color''" by simp
  have g: "get (heap light_world ! 1) ''intensity'' = VNum (Fin False 2 0)"
    by (simp add: light_world_def get_def)
  have k2: "''x'' \<in> set (keys (heap ?t ! 0))" by (simp add: keys_def)
  have nc2: "''x'' \<noteq> ''color''" by simp
  have g2: "get (heap ?t ! 0) ''x'' = VNum (Fin False 3602879701896397 (- 55))"
    by (simp add: get_def)
  have e: "js_times (js_neg (Fin False 2 0)) (Fin False 3 0) = Fin True 6 0"
    "js_times (Fin False 2 0) (Fin False 3 0) = Fin False 6 0"
    "js_times (js_neg (Fin False 3602879701896397 (- 55))) (Fin False 3 0) =
       Fin True 5404319552844596 (- 54)"
    "js_times (Fin False 3602879701896397 (- 55)) (Fin False 3 0) =
       Fin False 5404319552844596 (- 54)"
    by (simp_all add: round_double_def round_mantissa_def pack_def bit_length.simps Let_def)
  from Debug_default_multiple [of accept_all "''Light''" 1 light_world "''intensity''" "Fin False 2 0"]
    ok k nc g
  have 1: "RangeControl 2 ''intensity'' (js_times (js_neg (Fin False 2 0)) (Fin False 3 0))
      (js_times (Fin False 2 0) (Fin False 3 0)) \<in> set (folder_controls (last (gui ?S)))"
    by blast
  from Debug_default_multiple [of accept_all "''g''" 0 ?t "''x''" "Fin False 3602879701896397 (- 55)"]
    ok2 k2 nc2 g2
  have 2: "RangeControl 1 ''x'' (js_times (js_neg (Fin False 3602879701896397 (- 55))) (Fin False 3 0))
      (js_times (Fin False 3602879701896397 (- 55)) (Fin False 3 0))
        \<in> set (folder_controls (last (gui ?T)))"
    by blast
  have 3: "fin_value False 5404319552844596 (- 54) = 1351079888211149 / 4503599627370496"
    by (rule tenth_value)
  from 1 2 3 show ?thesis unfolding e by blast
qed

subsection \<open>C9: the copy is shallow\<close>

text \<open>
  C9. When a field of the input refers to an object, the same field of the clone
  refers to the very same object. An assignment to a field of that object, reached
  through the clone, changes the object the input refers to: reading it through the
  input gives the new value.
\<close>

theorem add_shallow:
  assumes "Debug_add P d n a w = (Inr c, w')"
    and "a < length (heap w)" and "b < length (heap w)"
    and "get (heap w ! a) k = VObj b"
  shows "get (heap w' ! c) k = VObj b
     \<and> get (heap w' ! a) k = VObj b
     \<and> (\<forall>j x. heap (set_field b j x w') ! b = assign j x (heap w ! b)
             \<and> get (heap (set_field b j x w') ! b) j = x
             \<and> (b \<noteq> a \<longrightarrow> get (heap (set_field b j x w') ! a) k = VObj b))"
proof -
  note r = Debug_add_Inr [OF assms(1)]
  have c: "get (heap w' ! c) k = VObj b"
    using r(1,2) assms(4) by simp
  have a: "heap w' ! a = heap w ! a" and b: "heap w' ! b = heap w ! b"
    using r(2) assms(2,3) by (simp_all add: nth_append)
  have bl: "b < length (heap w')" using r(2) assms(3) by simp
  have 1: "heap (set_field b j x w') ! b = assign j x (heap w ! b)" for j x
    using bl b by (simp add: set_field_def)
  have 2: "get (heap (set_field b j x w') ! b) j = x" for j x
    by (simp add: 1 get_assign_same)
  have 3: "b \<noteq> a \<longrightarrow> get (heap (set_field b j x w') ! a) k = VObj b" for j x
    using a assms(4) by (simp add: set_field_def)
  from c a assms(4) 1 2 3 show ?thesis by simp
qed

text \<open>
  C9 on the end-to-end example: setting \<open>r\<close> of the colour to 0 through the clone
  shows in the colour of the input.
\<close>

theorem add_shallow_witness:
  "get (heap (snd (Debug_add accept_all (Debug_constructor None) ''Light'' 1 light_world)) ! 2)
     ''color'' = VObj 0
   \<and> get (heap (set_field 0 ''r'' (VNum (Fin False 0 0))
        (snd (Debug_add accept_all (Debug_constructor None) ''Light'' 1 light_world))) ! 0) ''r''
     = VNum (Fin False 0 0)
   \<and> get (heap (set_field 0 ''r'' (VNum (Fin False 0 0))
        (snd (Debug_add accept_all (Debug_constructor None) ''Light'' 1 light_world))) ! 1)
       ''color'' = VObj 0"
proof -
  have a: "1 < length (heap light_world)" and b: "0 < length (heap light_world)"
    by (simp_all add: light_world_def)
  have g: "get (heap light_world ! 1) ''color'' = VObj 0"
    by (simp add: light_world_def get_def)
  have ne: "(0::nat) \<noteq> 1" by simp
  from add_shallow [OF light_add a b g] ne show ?thesis
    unfolding light_add by (metis snd_conv)
qed

subsection \<open>C10: the warning is appended before the error\<close>

text \<open>
  C10. When the mount element is right and WebGL is not available, the compatibility
  check appends the warning element to the children of the mount element, and the
  constructor then fails with the WebGL error: the element is not what it was.
\<close>

theorem constructor_appends_warning:
  assumes "opt_el opts = Some e"
    and "to_string e = ''[object HTMLDivElement]''"
    and "\<not> isWebGLAvailable W"
  shows "compatibilityCheck W e =
           (False, Node (to_string e) (child_nodes e @ [getWebGLErrorMessage W]))
     \<and> Lego_constructor W opts =
           Inl (WebGLUnsupported,
                Some (Node (to_string e) (child_nodes e @ [getWebGLErrorMessage W])))
     \<and> Node (to_string e) (child_nodes e @ [getWebGLErrorMessage W]) \<noteq> e"
proof -
  have "Node (to_string e) (child_nodes e @ [getWebGLErrorMessage W]) \<noteq> e"
    by (cases e) simp
  with assms show ?thesis
    by (simp add: Lego_constructor_def compatibilityCheck_def)
qed

text \<open>
  C10 on an empty \<open>div\<close>.
\<close>

theorem constructor_appends_warning_witness:
  "Lego_constructor
     \<lparr>isWebGLAvailable = False, getWebGLErrorMessage = Node ''[object HTMLDivElement]'' []\<rparr>
     \<lparr>opt_el = Some (Node ''[object HTMLDivElement]'' []), opt_camera = None,
      opt_scene = None, opt_ambient = None, opt_directional = None\<rparr> =
   Inl (WebGLUnsupported,
        Some (Node ''[object HTMLDivElement]'' [Node ''[object HTMLDivElement]'' []]))"
proof -
  let ?W = "\<lparr>isWebGLAvailable = False, getWebGLErrorMessage = Node ''[object HTMLDivElement]'' []\<rparr>"
  let ?e = "Node ''[object HTMLDivElement]'' []"
  let ?o = "\<lparr>opt_el = Some ?e, opt_camera = None,
      opt_scene = None, opt_ambient = None, opt_directional = None\<rparr>"
  have 1: "opt_el ?o = Some ?e" by simp
  have 2: "to_string ?e = ''[object HTMLDivElement]''" by simp
  have 3: "\<not> isWebGLAvailable ?W" by simp
  from constructor_appends_warning [OF 1 2 3] show ?thesis by simp
qed

end
